theory Spec2Isabelle
  imports Main "HOL-Library.Word" "HOL-Library.Signed_Division"
begin

section \<open>Go values used by print.go\<close>

text \<open>
  Go's \<^verbatim>\<open>int\<close> is taken at its width on the 64-bit targets: a two's-complement
  64-bit word. Addition, subtraction and multiplication wrap around, comparisons are
  signed (\<open>\<le>s\<close>, \<open><s\<close>), and \<open>sint\<close> reads the mathematical value.
\<close>

type_synonym int64 = "64 word"

text \<open>Go's \<^verbatim>\<open>/\<close> on \<^verbatim>\<open>int\<close> truncates towards zero.\<close>

definition quo :: "int64 \<Rightarrow> int64 \<Rightarrow> int64" where
  "quo a b = word_of_int (sint a sdiv sint b)"

text \<open>The builtin \<^verbatim>\<open>len\<close> on a slice, an \<^verbatim>\<open>int\<close>.\<close>

definition len :: "'a list \<Rightarrow> int64" where
  "len xs = word_of_nat (length xs)"

text \<open>
  Decimal formatting, as \<^verbatim>\<open>strconv.Itoa\<close> and the verb \<^verbatim>\<open>%d\<close> of
  \<^verbatim>\<open>fmt.Sprintf\<close> print an \<^verbatim>\<open>int\<close>.
\<close>

fun digits :: "nat \<Rightarrow> string" where
  "digits n =
     (if n < 10 then [''0123456789'' ! n]
      else digits (n div 10) @ [''0123456789'' ! (n mod 10)])"

declare digits.simps [simp del]

definition Itoa :: "int64 \<Rightarrow> string" where
  "Itoa i = (if sint i < 0 then ''-'' @ digits (nat (- sint i)) else digits (nat (sint i)))"

definition tab :: char where
  "tab = CHR 0x09"

definition newline :: char where
  "newline = CHR 0x0A"

text \<open>
  \<^verbatim>\<open>strings.Split(s, sep)\<close> for a separator of one character, the only way print.go
  calls it: the pieces between the separators, one piece more than there are
  separators, so never an empty slice.
\<close>

fun Split :: "string \<Rightarrow> char \<Rightarrow> string list" where
  "Split [] sep = [[]]"
| "Split (c # cs) sep =
     (if c = sep then [] # Split cs sep
      else (case Split cs sep of [] \<Rightarrow> [[c]] | l # ls \<Rightarrow> (c # l) # ls))"

text \<open>\<^verbatim>\<open>strings.Join(elems, sep)\<close>.\<close>

fun Join :: "string list \<Rightarrow> string \<Rightarrow> string" where
  "Join [] sep = []"
| "Join [x] sep = x"
| "Join (x # y # ys) sep = x @ sep @ Join (y # ys) sep"

section \<open>Collaborators declared outside print.go\<close>

text \<open>
  Modelled from the spec: the type \<^verbatim>\<open>Frame\<close> is declared in another file of the
  package. The spec gives a frame a source file path, a 1-based line number and a
  stable display string; \<open>FrameString\<close> is what \<^verbatim>\<open>frame.String()\<close> returns.
\<close>

record Frame =
  Path :: string
  Line :: int64
  FrameString :: string

text \<open>
  Modelled from the spec: the interface \<^verbatim>\<open>Error\<close> (an \<^verbatim>\<open>error\<close> that also has
  \<^verbatim>\<open>StackTrace()\<close>) is declared in another file of the package. A non-nil
  \<^verbatim>\<open>error\<close> either passes the type assertion \<^verbatim>\<open>err.(Error)\<close> (\<open>Traced\<close>, with its
  message and its frames) or does not (\<open>Plain\<close>, with its message). A Go value of
  type \<^verbatim>\<open>error\<close> is an \<open>error_value option\<close>, \<open>None\<close> being \<^verbatim>\<open>nil\<close>.
\<close>

datatype error_value = Plain string | Traced string "Frame list"

fun Error :: "error_value \<Rightarrow> string" where
  "Error (Plain m) = m"
| "Error (Traced m frames) = m"

text \<open>
  Modelled from the spec: the colour helpers \<^verbatim>\<open>red\<close>, \<^verbatim>\<open>yellow\<close>, \<^verbatim>\<open>black\<close> and
  \<^verbatim>\<open>bold\<close> are declared in another file of the package; the spec treats them as
  pure functions from string to string, so they are parameters here.
\<close>

record palette =
  red :: "string \<Rightarrow> string"
  yellow :: "string \<Rightarrow> string"
  black :: "string \<Rightarrow> string"
  bold :: "string \<Rightarrow> string"

section \<open>Package state\<close>

text \<open>The five package variables that configure printing (print.go, lines 11 to 24).\<close>

record config =
  DefaultLinesAfter :: int64
  DefaultLinesBefore :: int64
  DefaultIgnoreFirstFrames :: int64
  DefaultMaxFrames :: int64
  DefaultIgnoreLastFrames :: int64

text \<open>
  The mutable state: the package variable \<^verbatim>\<open>cache\<close>, and the trace of the calls of
  \<^verbatim>\<open>os.ReadFile\<close> made so far (the paths, oldest first), which makes a file access
  visible in the result. The file system is a function from a path to the content
  read, \<open>None\<close> when \<^verbatim>\<open>os.ReadFile\<close> returns an error.
\<close>

record world =
  cache :: "string \<rightharpoonup> string list"
  reads :: "string list"

type_synonym files = "string \<Rightarrow> string option"

text \<open>
  The only run-time panic print.go can raise by itself: \<^verbatim>\<open>make\<close> with a negative
  capacity. Memory is not bounded here: a non-negative capacity is always granted.
\<close>

datatype panic = MakesliceCapOutOfRange

section \<open>calcRows\<close>

definition calcRows :: "config \<Rightarrow> int64 list \<Rightarrow> int64 \<times> int64 \<times> bool" where
  "calcRows cfg nums =
     (let (before, after, withSource) =
            (case nums of
               n0 # n1 # _ \<Rightarrow> (n0, n1, True)
             | [n0] \<Rightarrow>
                 (if 0 <s n0
                  then (let after = quo (n0 - 1) 2 in (n0 - after - 1, after, True))
                  else (0, 0, False))
             | [] \<Rightarrow> (DefaultLinesBefore cfg, DefaultLinesAfter cfg, True));
          before = (if before <s 0 then 0 else before);
          after = (if after <s 0 then 0 else after)
      in (before, after, withSource))"

section \<open>readLines\<close>

text \<open>
  The two critical sections (the lookup under the read lock, the store under the write
  lock) are each one step of this sequential model.
\<close>

definition readLines :: "files \<Rightarrow> world \<Rightarrow> string \<Rightarrow> (error_value + string list) \<times> world" where
  "readLines fs w path =
     (case cache w path of
        Some lines \<Rightarrow> (Inr lines, w)
      | None \<Rightarrow>
          (let w1 = w\<lparr>reads := reads w @ [path]\<rparr> in
           case fs path of
             None \<Rightarrow> (Inl (Plain (''tracerr: file '' @ path @ '' not found'')), w1)
           | Some b \<Rightarrow>
               (let lines = Split b newline
                in (Inr lines, w1\<lparr>cache := (cache w1)(path \<mapsto> lines)\<rparr>))))"

section \<open>sourceRows\<close>

text \<open>The row built for one line of the window (print.go, lines 143 to 155).\<close>

definition sourceMessage :: "palette \<Rightarrow> Frame \<Rightarrow> bool \<Rightarrow> int64 \<Rightarrow> string \<Rightarrow> string" where
  "sourceMessage d frame colorized i line =
     (if i = Line frame - 1 then
        (let message = Itoa (i + 1) @ [tab] @ line
         in if colorized then red d message else message)
      else if colorized then black d (Itoa (i + 1)) @ [tab] @ line
      else Itoa (i + 1) @ [tab] @ line)"

text \<open>
  The loop \<^verbatim>\<open>for i := start; i <= end; i++\<close>. The counter is an \<^verbatim>\<open>int\<close>: when
  \<^verbatim>\<open>end\<close> is the largest \<^verbatim>\<open>int\<close> the test never fails and the increment wraps, so
  the loop is a partial function, \<open>None\<close> when it does not return.
\<close>

partial_function (option) sourceRows_loop ::
  "palette \<Rightarrow> string list \<Rightarrow> Frame \<Rightarrow> bool \<Rightarrow> int64 \<Rightarrow> int64 \<Rightarrow> string list \<Rightarrow> string list option" where
  "sourceRows_loop d lines frame colorized end' i rows =
     (if i \<le>s end' then
        (if i <s 0 \<or> len lines \<le>s i
         then sourceRows_loop d lines frame colorized end' (i + 1) rows
         else sourceRows_loop d lines frame colorized end' (i + 1)
                (rows @ [sourceMessage d frame colorized i (lines ! nat (sint i))]))
      else Some rows)"

declare sourceRows_loop.simps [code]

definition sourceRows ::
  "palette \<Rightarrow> files \<Rightarrow> world \<Rightarrow> string list \<Rightarrow> Frame \<Rightarrow> int64 \<Rightarrow> int64 \<Rightarrow> bool \<Rightarrow>
   (string list \<times> world) option" where
  "sourceRows d fs w rows frame before after colorized =
     (case readLines fs w (Path frame) of
        (Inl err, w') \<Rightarrow>
          (let message = Error err;
               message = (if colorized then yellow d message else message)
           in Some (rows @ [message, ''''], w'))
      | (Inr lines, w') \<Rightarrow>
          if len lines <s Line frame then
            (let message = ''tracerr: too few lines, got '' @ Itoa (len lines) @
                           '', want '' @ Itoa (Line frame);
                 message = (if colorized then yellow d message else message)
             in Some (rows @ [message, ''''], w'))
          else
            (let current = Line frame - 1;
                 start = current - before;
                 end' = current + after
             in case sourceRows_loop d lines frame colorized end' start rows of
                  None \<Rightarrow> None
                | Some rows' \<Rightarrow> Some (rows' @ [''''], w')))"

section \<open>sprint and its entry points\<close>

text \<open>
  What the loop does with a frame it does not skip (print.go, lines 187 to 194): the
  frame's display string, bold when colorized, then the source rows when \<open>withSource\<close>.
\<close>

definition render_frame ::
  "palette \<Rightarrow> files \<Rightarrow> int64 \<Rightarrow> int64 \<Rightarrow> bool \<Rightarrow> bool \<Rightarrow> Frame \<Rightarrow>
   string list \<times> world \<Rightarrow> (string list \<times> world) option" where
  "render_frame d fs before after withSource colorized frame st =
     (case st of
        (rows, w) \<Rightarrow>
          (let message = FrameString frame;
               message = (if colorized then bold d message else message);
               rows = rows @ [message]
           in if withSource then sourceRows d fs w rows frame before after colorized
              else Some (rows, w)))"

text \<open>
  The loop over the frames (print.go, lines 180 to 202), on the frames still to visit:
  \<open>n\<close> is \<^verbatim>\<open>len(frames)\<close> of the whole trace, \<open>i\<close> and \<open>appendedFrames\<close> are the two
  counters, and the rows are threaded with the world because \<^verbatim>\<open>sourceRows\<close> fills
  the cache. Leaving the recursion is \<^verbatim>\<open>break\<close>; the first branch is \<^verbatim>\<open>continue\<close>.
\<close>

fun frames_loop ::
  "palette \<Rightarrow> config \<Rightarrow> files \<Rightarrow> int64 \<Rightarrow> int64 \<Rightarrow> int64 \<Rightarrow> bool \<Rightarrow> bool \<Rightarrow>
   Frame list \<Rightarrow> int64 \<Rightarrow> int64 \<Rightarrow> string list \<times> world \<Rightarrow> (string list \<times> world) option" where
  "frames_loop d cfg fs n before after withSource colorized [] i appendedFrames st = Some st"
| "frames_loop d cfg fs n before after withSource colorized (frame # rest) i appendedFrames st =
     (let i = i + 1 in
      if i \<le>s DefaultIgnoreFirstFrames cfg
      then frames_loop d cfg fs n before after withSource colorized rest i appendedFrames st
      else
        (case render_frame d fs before after withSource colorized frame st of
           None \<Rightarrow> None
         | Some st \<Rightarrow>
             (let appendedFrames = appendedFrames + 1 in
              if 0 <s DefaultMaxFrames cfg \<and> DefaultMaxFrames cfg \<le>s appendedFrames
              then Some st
              else if 0 <s DefaultIgnoreLastFrames cfg \<and>
                      n \<le>s i + DefaultIgnoreLastFrames cfg
              then Some st
              else frames_loop d cfg fs n before after withSource colorized rest
                     i appendedFrames st)))"

text \<open>
  \<^verbatim>\<open>sprint\<close> returns \<open>None\<close> when it does not return, \<open>Some (Inl p)\<close> when it
  panics, \<open>Some (Inr (s, w))\<close> when it returns the string \<open>s\<close> and leaves the world \<open>w\<close>.
\<close>

definition sprint ::
  "palette \<Rightarrow> config \<Rightarrow> files \<Rightarrow> world \<Rightarrow> error_value option \<Rightarrow> int64 list \<Rightarrow> bool \<Rightarrow>
   (panic + string \<times> world) option" where
  "sprint d cfg fs w err nums colorized =
     (case err of
        None \<Rightarrow> Some (Inr ('''', w))
      | Some (Plain m) \<Rightarrow> Some (Inr (Error (Plain m), w))
      | Some (Traced m frames) \<Rightarrow>
          (let (before, after, withSource) = calcRows cfg nums;
               expectedRows =
                 (if withSource then (before + after + 3) * len frames + 2
                  else len frames + 1)
           in if expectedRows <s 0 then Some (Inl MakesliceCapOutOfRange)
              else
                (let rows = [Error (Traced m frames)];
                     rows = (if withSource then rows @ [''''] else rows)
                 in case frames_loop d cfg fs (len frames) before after withSource colorized
                           frames 0 0 (rows, w) of
                      None \<Rightarrow> None
                    | Some (rows, w') \<Rightarrow> Some (Inr (Join rows [newline], w')))))"

definition Sprint ::
  "palette \<Rightarrow> config \<Rightarrow> files \<Rightarrow> world \<Rightarrow> error_value option \<Rightarrow>
   (panic + string \<times> world) option" where
  "Sprint d cfg fs w err = sprint d cfg fs w err [0] False"

definition SprintSource ::
  "palette \<Rightarrow> config \<Rightarrow> files \<Rightarrow> world \<Rightarrow> error_value option \<Rightarrow> int64 list \<Rightarrow>
   (panic + string \<times> world) option" where
  "SprintSource d cfg fs w err nums = sprint d cfg fs w err nums False"

definition SprintSourceColor ::
  "palette \<Rightarrow> config \<Rightarrow> files \<Rightarrow> world \<Rightarrow> error_value option \<Rightarrow> int64 list \<Rightarrow>
   (panic + string \<times> world) option" where
  "SprintSourceColor d cfg fs w err nums = sprint d cfg fs w err nums True"

section \<open>The window and the selection, as the specification words them\<close>

text \<open>
  The indexes of a window: each \<open>i\<close> from \<open>start\<close> to \<open>end\<close> inclusive that lies in
  \<open>[0, L)\<close>, in increasing order.
\<close>

definition window_indices :: "int \<Rightarrow> int \<Rightarrow> nat \<Rightarrow> int list" where
  "window_indices start end' L = filter (\<lambda>i. 0 \<le> i \<and> i < int L) [start..end']"

text \<open>
  The row of index \<open>i\<close>: the 1-based line number, a tab, the text of the line. When
  colorized, the row of the traced line (\<open>i = current\<close>) is wrapped in \<open>red\<close> and, on
  the other rows, the line number alone is wrapped in \<open>black\<close>.
\<close>

definition window_row :: "palette \<Rightarrow> bool \<Rightarrow> int \<Rightarrow> string list \<Rightarrow> int \<Rightarrow> string" where
  "window_row d colorized current lines i =
     (if colorized
      then (if i = current then red d (digits (nat (i + 1)) @ [tab] @ lines ! nat i)
            else black d (digits (nat (i + 1))) @ [tab] @ lines ! nat i)
      else digits (nat (i + 1)) @ [tab] @ lines ! nat i)"

text \<open>The warning row: wrapped in \<open>yellow\<close> when colorized.\<close>

definition warning_row :: "palette \<Rightarrow> bool \<Rightarrow> string \<Rightarrow> string" where
  "warning_row d colorized message = (if colorized then yellow d message else message)"

text \<open>Rendering a list of frames one after the other, none skipped.\<close>

fun render_frames ::
  "palette \<Rightarrow> files \<Rightarrow> int64 \<Rightarrow> int64 \<Rightarrow> bool \<Rightarrow> bool \<Rightarrow> Frame list \<Rightarrow>
   string list \<times> world \<Rightarrow> (string list \<times> world) option" where
  "render_frames d fs before after withSource colorized [] st = Some st"
| "render_frames d fs before after withSource colorized (frame # rest) st =
     (case render_frame d fs before after withSource colorized frame st of
        None \<Rightarrow> None
      | Some st' \<Rightarrow> render_frames d fs before after withSource colorized rest st')"

text \<open>
  The test \<^verbatim>\<open>i + DefaultIgnoreLastFrames >= len(frames)\<close> at position \<open>p\<close> of a trace of
  \<open>T\<close> frames, the sum being a Go \<^verbatim>\<open>int\<close>.
\<close>

definition tail_reached :: "config \<Rightarrow> nat \<Rightarrow> nat \<Rightarrow> bool" where
  "tail_reached cfg T p =
     ((word_of_nat T :: int64) \<le>s word_of_nat p + DefaultIgnoreLastFrames cfg)"

text \<open>
  The 1-based positions of the frames rendered, of a trace of \<open>T\<close> frames. The
  positions \<open>p \<le> DefaultIgnoreFirstFrames\<close> are skipped and the others are taken in
  order, until the first of two stops: \<open>DefaultMaxFrames\<close> frames have been taken
  (when \<open>DefaultMaxFrames > 0\<close>); the first position \<open>p\<close> with
  \<open>p + DefaultIgnoreLastFrames \<ge> T\<close> has been taken (when \<open>DefaultIgnoreLastFrames > 0\<close>).
\<close>

definition selected_positions :: "config \<Rightarrow> nat \<Rightarrow> nat list" where
  "selected_positions cfg T =
     (let eligible = filter (\<lambda>p. \<not> int p \<le> sint (DefaultIgnoreFirstFrames cfg)) [1..<Suc T];
          by_max =
            (if 0 < sint (DefaultMaxFrames cfg)
             then take (nat (sint (DefaultMaxFrames cfg))) eligible
             else eligible);
          by_last =
            (if 0 < sint (DefaultIgnoreLastFrames cfg)
             then takeWhile (\<lambda>p. \<not> tail_reached cfg T p) eligible @
                  take 1 (dropWhile (\<lambda>p. \<not> tail_reached cfg T p) eligible)
             else eligible)
      in if length by_max \<le> length by_last then by_max else by_last)"

definition selected_frames :: "config \<Rightarrow> Frame list \<Rightarrow> Frame list" where
  "selected_frames cfg frames =
     map (\<lambda>p. frames ! (p - 1)) (selected_positions cfg (length frames))"

text \<open>
  The same positions when the loop has already visited \<open>k\<close> frames and rendered \<open>a\<close> of
  them: the invariant of the loop.
\<close>

definition positions_from :: "config \<Rightarrow> nat \<Rightarrow> nat \<Rightarrow> nat \<Rightarrow> nat list" where
  "positions_from cfg T k a =
     (let eligible = filter (\<lambda>p. \<not> int p \<le> sint (DefaultIgnoreFirstFrames cfg)) [Suc k..<Suc T];
          by_max =
            (if 0 < sint (DefaultMaxFrames cfg)
             then take (nat (sint (DefaultMaxFrames cfg)) - a) eligible
             else eligible);
          by_last =
            (if 0 < sint (DefaultIgnoreLastFrames cfg)
             then takeWhile (\<lambda>p. \<not> tail_reached cfg T p) eligible @
                  take 1 (dropWhile (\<lambda>p. \<not> tail_reached cfg T p) eligible)
             else eligible)
      in if length by_max \<le> length by_last then by_max else by_last)"

text \<open>The frames the loop renders, the loop of \<open>frames_loop\<close> without the rendering.\<close>

fun select_from :: "config \<Rightarrow> int64 \<Rightarrow> Frame list \<Rightarrow> int64 \<Rightarrow> int64 \<Rightarrow> Frame list" where
  "select_from cfg n [] i appendedFrames = []"
| "select_from cfg n (frame # rest) i appendedFrames =
     (let i = i + 1 in
      if i \<le>s DefaultIgnoreFirstFrames cfg then select_from cfg n rest i appendedFrames
      else
        (let appendedFrames = appendedFrames + 1 in
         if 0 <s DefaultMaxFrames cfg \<and> DefaultMaxFrames cfg \<le>s appendedFrames then [frame]
         else if 0 <s DefaultIgnoreLastFrames cfg \<and> n \<le>s i + DefaultIgnoreLastFrames cfg
         then [frame]
         else frame # select_from cfg n rest i appendedFrames))"

section \<open>Concrete inputs\<close>

definition ex_palette :: palette where
  "ex_palette =
     \<lparr>red = (\<lambda>s. ''R'' @ s), yellow = (\<lambda>s. ''Y'' @ s),
      black = (\<lambda>s. ''K'' @ s), bold = (\<lambda>s. ''B'' @ s)\<rparr>"

definition ex_config :: config where
  "ex_config =
     \<lparr>DefaultLinesAfter = 2, DefaultLinesBefore = 3, DefaultIgnoreFirstFrames = 0,
      DefaultMaxFrames = 0, DefaultIgnoreLastFrames = 0\<rparr>"

definition ex_lines :: "string list" where
  "ex_lines = [''l1'', ''l2'', ''l3'', ''l4'', ''l5'', ''l6'']"

definition ex_files :: files where
  "ex_files = (\<lambda>p. if p = ''a.go'' then Some (''x'' @ [newline] @ ''y'') else None)"

definition ex_world :: world where
  "ex_world = \<lparr>cache = [''b.go'' \<mapsto> ex_lines], reads = []\<rparr>"

definition ex_frame :: "int64 \<Rightarrow> Frame" where
  "ex_frame n = \<lparr>Path = ''b.go'', Line = n, FrameString = ''main.f (b.go)''\<rparr>"

definition ex_trace :: "Frame list" where
  "ex_trace =
     [\<lparr>Path = ''b.go'', Line = 2, FrameString = ''f1''\<rparr>,
      \<lparr>Path = ''b.go'', Line = 4, FrameString = ''f2''\<rparr>,
      \<lparr>Path = ''c.go'', Line = 9, FrameString = ''f3''\<rparr>]"

definition ex_skip_config :: config where
  "ex_skip_config =
     \<lparr>DefaultLinesAfter = 2, DefaultLinesBefore = 3, DefaultIgnoreFirstFrames = 1,
      DefaultMaxFrames = 0, DefaultIgnoreLastFrames = 1\<rparr>"

definition ex_last_config :: config where
  "ex_last_config =
     \<lparr>DefaultLinesAfter = 2, DefaultLinesBefore = 3, DefaultIgnoreFirstFrames = 0,
      DefaultMaxFrames = 0, DefaultIgnoreLastFrames = 9223372036854775807\<rparr>"

definition ex_tail_config :: config where
  "ex_tail_config =
     \<lparr>DefaultLinesAfter = 2, DefaultLinesBefore = 3, DefaultIgnoreFirstFrames = 0,
      DefaultMaxFrames = 0, DefaultIgnoreLastFrames = 5\<rparr>"

section \<open>Arithmetic of 64-bit integers\<close>

lemma sint_int64_range:
  "- 9223372036854775808 \<le> sint (x::int64) \<and> sint x < 9223372036854775808"
  using sint_range_size [of x] by (simp add: word_size)

lemma sint_of_int_eq:
  "- 9223372036854775808 \<le> k \<Longrightarrow> k < 9223372036854775808 \<Longrightarrow>
   sint (word_of_int k :: int64) = k"
  by (simp add: sint_sbintrunc' signed_take_bit_int_eq_self_iff)

lemma sint_add_nowrap:
  "- 9223372036854775808 \<le> sint a + sint b \<Longrightarrow> sint a + sint b < 9223372036854775808 \<Longrightarrow>
   sint (a + b :: int64) = sint a + sint b"
  by (simp add: sint_word_ariths signed_take_bit_int_eq_self_iff)

lemma sint_sub_nowrap:
  "- 9223372036854775808 \<le> sint a - sint b \<Longrightarrow> sint a - sint b < 9223372036854775808 \<Longrightarrow>
   sint (a - b :: int64) = sint a - sint b"
  by (simp add: sint_word_ariths signed_take_bit_int_eq_self_iff)

lemma sint_len: "length xs < 9223372036854775808 \<Longrightarrow> sint (len xs) = int (length xs)"
  using sint_of_int_eq [of "int (length xs)"] by (simp add: len_def)

lemma sint_succ: "sint (i::int64) < 9223372036854775807 \<Longrightarrow> sint (i + 1) = sint i + 1"
  using sint_int64_range [of i] by (simp add: sint_add_nowrap)

lemma max_int64_sle: "(i::int64) \<le>s 9223372036854775807"
  using sint_int64_range [of i] by (simp add: word_sle_eq)

lemma sint_max_int64: "sint (x::int64) < 9223372036854775807 \<longleftrightarrow> x \<noteq> 9223372036854775807"
proof
  assume "sint x < 9223372036854775807"
  then show "x \<noteq> 9223372036854775807" by auto
next
  assume n: "x \<noteq> 9223372036854775807"
  have "sint x \<noteq> sint (9223372036854775807 :: int64)"
    using n word_eq_iff_signed [where ?'a = int, of x 9223372036854775807] by simp
  then show "sint x < 9223372036854775807"
    using sint_int64_range [of x] by simp
qed

section \<open>calcRows: one argument\<close>

lemma sint_after_single:
  assumes "0 < sint (n::int64)"
  shows "sint (quo (n - 1) 2) = (sint n - 1) div 2"
proof -
  have r: "sint n < 9223372036854775808"
    using sint_int64_range [of n] by simp
  have s1: "sint (n - 1) = sint n - 1"
    using assms r by (simp add: sint_sub_nowrap)
  have q: "sint (n - 1) sdiv 2 = (sint n - 1) div 2"
    using assms s1 by (simp add: signed_divide_int_def sgn_if)
  show ?thesis
    unfolding quo_def using assms r q by (simp add: sint_of_int_eq)
qed

lemma sint_before_single:
  assumes "0 < sint (n::int64)"
  shows "sint (n - quo (n - 1) 2 - 1) = sint n - (sint n - 1) div 2 - 1"
proof -
  have r: "sint n < 9223372036854775808"
    using sint_int64_range [of n] by simp
  have sa: "sint (quo (n - 1) 2) = (sint n - 1) div 2"
    using assms by (rule sint_after_single)
  have sb: "sint (n - quo (n - 1) 2) = sint n - (sint n - 1) div 2"
    using assms r sa by (simp add: sint_sub_nowrap)
  show ?thesis
    using assms r sb by (simp add: sint_sub_nowrap)
qed

text \<open>
  C3: for a single argument \<open>n\<close>, \<open>calcRows [n]\<close> returns, when \<open>n > 0\<close>,
  \<open>after = (n - 1) / 2\<close> rounded down and \<open>before = n - after - 1\<close>, so that
  \<open>before + after + 1 = n\<close>, with \<open>withSource\<close> true; when \<open>n \<le> 0\<close> it returns
  \<open>before = after = 0\<close> and \<open>withSource\<close> false. The values are read with \<open>sint\<close>:
  none of the computations wraps around, and the clamping at zero changes nothing.
\<close>

theorem calcRows_single:
  "(case calcRows cfg [n] of
      (before, after, withSource) \<Rightarrow>
        if 0 < sint n
        then sint after = (sint n - 1) div 2 \<and>
             sint before = sint n - sint after - 1 \<and>
             sint before + sint after + 1 = sint n \<and>
             withSource
        else before = 0 \<and> after = 0 \<and> \<not> withSource)"
proof (cases "0 < sint n")
  case True
  have a: "sint (quo (n - 1) 2) = (sint n - 1) div 2"
    using True by (rule sint_after_single)
  have b: "sint (n - quo (n - 1) 2 - 1) = sint n - (sint n - 1) div 2 - 1"
    using True by (rule sint_before_single)
  have a0: "\<not> quo (n - 1) 2 <s 0"
    using True a by (simp add: word_sless_alt)
  have b0: "\<not> n - quo (n - 1) 2 - 1 <s 0"
    using True b by (simp add: word_sless_alt)
  show ?thesis
    using True a b a0 b0 by (simp add: calcRows_def Let_def word_sless_alt)
next
  case False
  then show ?thesis
    by (simp add: calcRows_def Let_def word_sless_alt)
qed

section \<open>calcRows: two arguments or more\<close>

text \<open>
  C8: for an argument list \<open>b, a, ...\<close> of two elements or more, \<open>calcRows\<close> returns
  \<open>(max b 0, max a 0, true)\<close>, and the arguments after the second have no effect: the
  result is that of the list \<open>[b, a]\<close>.
\<close>

theorem calcRows_pair:
  "(case calcRows cfg (b # a # rest) of
      (before, after, withSource) \<Rightarrow>
        sint before = max (sint b) 0 \<and> sint after = max (sint a) 0 \<and> withSource) \<and>
   calcRows cfg (b # a # rest) = calcRows cfg [b, a]"
  by (simp add: calcRows_def Let_def word_sless_alt max_def)

section \<open>sprint: an error without a stack trace\<close>

text \<open>
  C7: whatever the window arguments and the colour flag, \<open>sprint\<close> of a nil error
  returns the empty string, and \<open>sprint\<close> of a non-nil error that fails the type
  assertion returns that error's message. In both cases the world is returned as it
  was: the cache is untouched and no file is read.
\<close>

theorem sprint_nil_or_plain:
  "sprint d cfg fs w None nums colorized = Some (Inr ('''', w)) \<and>
   sprint d cfg fs w (Some (Plain m)) nums colorized = Some (Inr (Error (Plain m), w))"
  by (simp add: sprint_def)

section \<open>sprint: a traced error with no frame\<close>

lemma len_Nil: "len [] = 0"
  by (simp add: len_def)

lemma calcRows_zero: "calcRows cfg [0] = (0, 0, False)"
  by (simp add: calcRows_def word_sless_alt)

text \<open>
  C10: for a traced error whose stack trace is empty, \<open>Sprint\<close> returns the message,
  and \<open>SprintSource\<close> returns the message followed by one newline when the window
  arguments give \<open>withSource\<close> true (and the bare message when they do not). The world
  is returned as it was: no frame is rendered and no file is read.
\<close>

theorem sprint_no_frames:
  "Sprint d cfg fs w (Some (Traced m [])) = Some (Inr (m, w)) \<and>
   SprintSource d cfg fs w (Some (Traced m [])) nums =
     Some (Inr (if snd (snd (calcRows cfg nums)) then m @ [newline] else m, w))"
proof -
  obtain before after withSource where c: "calcRows cfg nums = (before, after, withSource)"
    by (cases "calcRows cfg nums") auto
  have "Sprint d cfg fs w (Some (Traced m [])) = Some (Inr (m, w))"
    by (simp add: Sprint_def sprint_def calcRows_zero len_Nil word_sless_alt)
  moreover have "SprintSource d cfg fs w (Some (Traced m [])) nums =
      Some (Inr (if withSource then m @ [newline] else m, w))"
    by (simp add: SprintSource_def sprint_def c len_Nil word_sless_alt)
  ultimately show ?thesis
    by (simp add: c)
qed

section \<open>sourceRows: the window\<close>

text \<open>
  On an index of the file the row of \<open>sourceRows\<close> is the row of the specification;
  the line number \<open>i + 1\<close> does not wrap there.
\<close>

lemma Itoa_succ:
  assumes "0 \<le> j" "j < 9223372036854775807"
  shows "Itoa (word_of_int j + 1) = digits (nat (j + 1))"
proof -
  have "sint (word_of_int j :: int64) = j"
    using assms by (simp add: sint_of_int_eq)
  then have "sint (word_of_int j + 1 :: int64) = j + 1"
    using assms sint_succ [of "word_of_int j"] by simp
  then show ?thesis
    using assms by (simp add: Itoa_def)
qed

lemma sourceMessage_window_row:
  assumes "0 \<le> j" "j < 9223372036854775807"
  shows "sourceMessage d frame colorized (word_of_int j) (lines ! nat j) =
         window_row d colorized (sint (Line frame - 1)) lines j"
proof -
  have s: "sint (word_of_int j :: int64) = j"
    using assms by (simp add: sint_of_int_eq)
  have c: "(word_of_int j = Line frame - 1) = (j = sint (Line frame - 1))"
    using s by auto
  have i: "Itoa (word_of_int j + 1) = digits (nat (j + 1))"
    using assms by (rule Itoa_succ)
  show ?thesis
    unfolding sourceMessage_def window_row_def Let_def i c by simp
qed

text \<open>
  The loop returns whenever \<open>end\<close> is not the largest \<^verbatim>\<open>int\<close>, with the rows of the
  window appended; when \<open>end\<close> is the largest \<^verbatim>\<open>int\<close> it does not return.
\<close>

lemma sourceRows_loop_window:
  assumes L: "length lines < 9223372036854775808"
    and e: "sint end' < 9223372036854775807"
  shows "sourceRows_loop d lines frame colorized end' i rows =
     Some (rows @ map (window_row d colorized (sint (Line frame - 1)) lines)
                      (window_indices (sint i) (sint end') (length lines)))"
proof (induction "nat (sint end' + 1 - sint i)" arbitrary: i rows)
  case 0
  then have "\<not> i \<le>s end'"
    by (simp add: word_sle_eq)
  moreover from 0 have "[sint i .. sint end'] = []"
    by simp
  ultimately show ?case
    by (subst sourceRows_loop.simps) (simp add: window_indices_def)
next
  case (Suc n)
  then have le: "i \<le>s end'"
    by (simp add: word_sle_eq)
  then have lt: "sint i < 9223372036854775807"
    using e by (simp add: word_sle_eq)
  have s: "sint (i + 1) = sint i + 1"
    using lt by (rule sint_succ)
  have n: "n = nat (sint end' + 1 - sint (i + 1))"
    using Suc(2) s by simp
  have u: "[sint i .. sint end'] = sint i # [sint (i + 1) .. sint end']"
    using le s by (simp add: word_sle_eq upto_rec1)
  have c: "(i <s 0 \<or> len lines \<le>s i) = (\<not> (0 \<le> sint i \<and> sint i < int (length lines)))"
    using L by (auto simp add: word_sle_eq word_sless_alt sint_len)
  have m: "sourceMessage d frame colorized i (lines ! nat (sint i)) =
           window_row d colorized (sint (Line frame - 1)) lines (sint i)"
    if "0 \<le> sint i"
    using sourceMessage_window_row [of "sint i" d frame colorized lines] that lt by simp
  show ?case
    apply (subst sourceRows_loop.simps)
    apply (simp only: le if_True c)
    apply (simp add: Suc(1) [OF n] u window_indices_def m)
    done
qed

lemma sourceRows_loop_Some_end:
  assumes "sourceRows_loop d lines frame colorized end' i rows = Some r"
  shows "end' \<noteq> 9223372036854775807"
proof (rule sourceRows_loop.raw_induct
    [where P = "\<lambda>d lines frame colorized end' i rows r. end' \<noteq> 9223372036854775807", OF _ assms])
  fix loop :: "palette \<Rightarrow> string list \<Rightarrow> Frame \<Rightarrow> bool \<Rightarrow> int64 \<Rightarrow> int64 \<Rightarrow> string list \<Rightarrow> string list option"
  fix d lines frame colorized end' i rows r
  assume 1: "\<And>lines frame colorized end' i rows b y.
        loop lines frame colorized end' i rows b = Some y \<Longrightarrow> i \<noteq> 9223372036854775807"
     "(if i \<le>s end'
      then if i <s 0 \<or> len lines \<le>s i
           then loop d lines frame colorized end' (i + 1) rows
           else loop d lines frame colorized end' (i + 1)
                 (rows @ [sourceMessage d frame colorized i (lines ! nat (sint i))])
      else Some rows) = Some r"
  show "end' \<noteq> 9223372036854775807"
  proof
    assume m: "end' = 9223372036854775807"
    have "i \<le>s end'"
      unfolding m by (rule max_int64_sle)
    with 1(2) have
      "loop d lines frame colorized end' (i + 1) rows = Some r \<or>
       loop d lines frame colorized end' (i + 1)
         (rows @ [sourceMessage d frame colorized i (lines ! nat (sint i))]) = Some r"
      by (simp split: if_splits)
    then have "end' \<noteq> 9223372036854775807"
      using 1(1) by blast
    with m show False
      by simp
  qed
qed

lemma sourceRows_loop_diverges:
  "sourceRows_loop d lines frame colorized 9223372036854775807 i rows = None"
  using sourceRows_loop_Some_end [of d lines frame colorized 9223372036854775807 i rows]
  by (cases "sourceRows_loop d lines frame colorized 9223372036854775807 i rows") auto

text \<open>
  When neither bound wraps around, the bounds Go computes are the mathematical
  \<open>frame.Line - 1 - before\<close> and \<open>frame.Line - 1 + after\<close>.
\<close>

lemma window_bounds_exact:
  assumes "- 9223372036854775808 \<le> sint l - 1"
    and "- 9223372036854775808 \<le> sint l - 1 - sint b" "sint l - 1 - sint b < 9223372036854775808"
    and "- 9223372036854775808 \<le> sint l - 1 + sint a" "sint l - 1 + sint a < 9223372036854775808"
  shows "sint (l - 1 - b :: int64) = sint l - 1 - sint b \<and> sint (l - 1 + a) = sint l - 1 + sint a"
proof -
  have c: "sint (l - 1) = sint l - 1"
    using assms(1) sint_int64_range [of l] by (simp add: sint_sub_nowrap)
  show ?thesis
    using assms c by (simp add: sint_sub_nowrap sint_add_nowrap)
qed

text \<open>
  Where the loop returns: for a frame whose file resolves to the lines \<open>lines\<close> (a Go
  slice, so fewer than \<open>2^63\<close> of them) with \<open>frame.Line \<le> length lines\<close>, and when
  the bound \<open>end\<close> that \<open>sourceRows\<close> computes is not the largest \<^verbatim>\<open>int\<close>,
  \<open>sourceRows\<close> appends the rows of the indexes of the file between the two bounds it
  computes, in increasing order, and then one blank row.
\<close>

lemma sourceRows_window:
  assumes resolved: "readLines fs w (Path frame) = (Inr lines, w')"
    and slice: "length lines < 9223372036854775808"
    and inside: "sint (Line frame) \<le> int (length lines)"
    and returns: "Line frame - 1 + after \<noteq> 9223372036854775807"
  shows "sourceRows d fs w rows frame before after colorized =
     Some (rows @
           map (window_row d colorized (sint (Line frame - 1)) lines)
               (window_indices (sint (Line frame - 1 - before)) (sint (Line frame - 1 + after))
                  (length lines)) @
           [''''], w')"
proof -
  have "\<not> len lines <s Line frame"
    using slice inside by (simp add: word_sless_alt sint_len)
  moreover have "sint (Line frame - 1 + after) < 9223372036854775807"
    using returns by (simp add: sint_max_int64)
  ultimately show ?thesis
    using slice by (simp add: sourceRows_def resolved Let_def sourceRows_loop_window)
qed

lemma ex_cached: "readLines fs ex_world ''b.go'' = (Inr ex_lines, ex_world)"
  by (simp add: readLines_def ex_world_def)

lemma sourceRows_window_example:
  "sourceRows ex_palette ex_files ex_world [''main.f (b.go)''] (ex_frame 5) 1 1 False =
     Some ([''main.f (b.go)'', ''4'' @ [tab] @ ''l4'', ''5'' @ [tab] @ ''l5'', ''6'' @ [tab] @ ''l6'', ''''],
           ex_world)"
proof -
  have r: "readLines ex_files ex_world (Path (ex_frame 5)) = (Inr ex_lines, ex_world)"
    by (simp add: ex_frame_def ex_cached)
  have n: "length ex_lines = 6"
    by (simp add: ex_lines_def)
  have m: "map (window_row ex_palette False 4 ex_lines) (window_indices 3 5 6) =
      [''4'' @ [tab] @ ''l4'', ''5'' @ [tab] @ ''l5'', ''6'' @ [tab] @ ''l6'']"
    by (simp add: window_indices_def upto.simps window_row_def ex_lines_def digits.simps)
  show ?thesis
    using sourceRows_window [OF r, of 1 ex_palette "[''main.f (b.go)'']" 1 False]
    by (simp add: ex_frame_def n m)
qed

text \<open>
  When no computation of the bounds overflows and \<open>end\<close> is below the largest
  \<^verbatim>\<open>int\<close>, the window is the mathematical one: the indexes from
  \<open>frame.Line - 1 - before\<close> to \<open>frame.Line - 1 + after\<close> inclusive that lie in
  \<open>[0, length lines)\<close>, followed by the blank row.
\<close>

lemma sourceRows_window_exact:
  assumes resolved: "readLines fs w (Path frame) = (Inr lines, w')"
    and slice: "length lines < 9223372036854775808"
    and inside: "sint (Line frame) \<le> int (length lines)"
    and line: "- 9223372036854775808 \<le> sint (Line frame) - 1"
    and start: "- 9223372036854775808 \<le> sint (Line frame) - 1 - sint before"
      "sint (Line frame) - 1 - sint before < 9223372036854775808"
    and end': "- 9223372036854775808 \<le> sint (Line frame) - 1 + sint after"
      "sint (Line frame) - 1 + sint after < 9223372036854775807"
  shows "sourceRows d fs w rows frame before after colorized =
     Some (rows @
           map (window_row d colorized (sint (Line frame) - 1) lines)
               (window_indices (sint (Line frame) - 1 - sint before)
                  (sint (Line frame) - 1 + sint after) (length lines)) @
           [''''], w')"
proof -
  have b: "sint (Line frame - 1 - before) = sint (Line frame) - 1 - sint before \<and>
           sint (Line frame - 1 + after) = sint (Line frame) - 1 + sint after"
    using line start end' by (intro window_bounds_exact) simp_all
  have c: "sint (Line frame - 1) = sint (Line frame) - 1"
    using line sint_int64_range [of "Line frame"] by (simp add: sint_sub_nowrap)
  have "sint (Line frame - 1 + after) < 9223372036854775807"
    using b end' by simp
  then have "Line frame - 1 + after \<noteq> 9223372036854775807"
    by (simp add: sint_max_int64)
  from sourceRows_window [OF resolved slice inside this] show ?thesis
    by (simp add: b c)
qed

text \<open>
  C1: for a frame whose file resolves to \<open>L\<close> lines with \<open>frame.Line \<le> L\<close>, \<open>sourceRows\<close>
  is to append the rows of the indexes from \<open>frame.Line - 1 - before\<close> to
  \<open>frame.Line - 1 + after\<close> inclusive that lie in \<open>[0, L)\<close>, then one blank row. The code
  does not do so on the frame of line 1 with \<open>before = 0\<close> and \<open>after\<close> the largest
  \<^verbatim>\<open>int\<close>: the file is cached with six lines and the line is inside it, so the six rows
  and a blank row are due, but \<open>end\<close> is the largest \<^verbatim>\<open>int\<close>, the test
  \<^verbatim>\<open>i <= end\<close> never fails, the increment wraps around, and \<open>sourceRows\<close> does not
  return.
\<close>

theorem sourceRows_window_failing_input:
  "readLines ex_files ex_world (Path (ex_frame 1)) = (Inr ex_lines, ex_world) \<and>
   sint (Line (ex_frame 1)) \<le> int (length ex_lines) \<and>
   sourceRows ex_palette ex_files ex_world [] (ex_frame 1) 0 9223372036854775807 False = None"
proof -
  have r: "readLines ex_files ex_world (Path (ex_frame 1)) = (Inr ex_lines, ex_world)"
    by (simp add: ex_frame_def ex_cached)
  have l: "\<not> len ex_lines <s Line (ex_frame 1)"
    by (simp add: ex_frame_def ex_lines_def len_def word_sless_alt)
  have e: "Line (ex_frame 1) - 1 + 9223372036854775807 = (9223372036854775807 :: int64)"
    by (simp add: ex_frame_def)
  show ?thesis
    by (simp add: sourceRows_def r l e sourceRows_loop_diverges)
       (simp add: ex_frame_def ex_lines_def)
qed

text \<open>
  Three more runs with \<open>after\<close> the largest \<^verbatim>\<open>int\<close>. On the frame of line 5 the
  bound \<open>end\<close> wraps around to a negative value and the window is empty. Through
  \<open>SprintSource\<close> with the window arguments \<open>0\<close> and the largest \<^verbatim>\<open>int\<close>: with two
  frames of line 1 the capacity wraps around to 6 and the call does not return; with
  one frame the capacity is negative and \<^verbatim>\<open>make\<close> panics.
\<close>

lemma sourceRows_wrapped_window_example:
  "sourceRows ex_palette ex_files ex_world [] (ex_frame 5) 0 9223372036854775807 False =
     Some ([''''], ex_world)"
proof -
  have r: "readLines ex_files ex_world (Path (ex_frame 5)) = (Inr ex_lines, ex_world)"
    by (simp add: ex_frame_def ex_cached)
  have l: "\<not> len ex_lines <s Line (ex_frame 5)"
    by (simp add: ex_frame_def ex_lines_def len_def word_sless_alt)
  have e: "\<not> Line (ex_frame 5) - 1 - 0 \<le>s Line (ex_frame 5) - 1 + 9223372036854775807"
    by (simp add: ex_frame_def word_sle_eq)
  have "sourceRows_loop ex_palette ex_lines (ex_frame 5) False
          (Line (ex_frame 5) - 1 + 9223372036854775807) (Line (ex_frame 5) - 1 - 0) [] = Some []"
    using e by (subst sourceRows_loop.simps) simp
  then show ?thesis
    by (simp add: sourceRows_def r l)
qed

lemma SprintSource_diverges_example:
  "SprintSource ex_palette ex_config ex_files ex_world
     (Some (Traced ''boom'' [ex_frame 1, ex_frame 1])) [0, 9223372036854775807] = None"
proof -
  have c: "calcRows ex_config [0, 9223372036854775807] = (0, 9223372036854775807, True)"
    by (simp add: calcRows_def word_sless_alt)
  have n: "\<not> (0 + 9223372036854775807 + 3) * len [ex_frame 1, ex_frame 1] + 2 <s (0 :: int64)"
    by (simp add: len_def word_sless_alt)
  have r: "readLines ex_files ex_world (Path (ex_frame 1)) = (Inr ex_lines, ex_world)"
    by (simp add: ex_frame_def ex_cached)
  have l: "\<not> len ex_lines <s Line (ex_frame 1)"
    by (simp add: ex_frame_def ex_lines_def len_def word_sless_alt)
  have e: "Line (ex_frame 1) - 1 + 9223372036854775807 = (9223372036854775807 :: int64)"
    by (simp add: ex_frame_def)
  have s: "sourceRows ex_palette ex_files ex_world rows (ex_frame 1) 0 9223372036854775807 False = None"
    for rows
    by (simp add: sourceRows_def r l e sourceRows_loop_diverges)
  have i: "\<not> (1 :: int64) \<le>s DefaultIgnoreFirstFrames ex_config"
    by (simp add: ex_config_def word_sle_eq)
  have "frames_loop ex_palette ex_config ex_files (len [ex_frame 1, ex_frame 1]) 0
          9223372036854775807 True False [ex_frame 1, ex_frame 1] 0 0 ([''boom'', ''''], ex_world) = None"
    using i by (simp add: render_frame_def s Let_def)
  then show ?thesis
    using n by (simp add: SprintSource_def sprint_def c Let_def del: frames_loop.simps)
qed

lemma SprintSource_panics_example:
  "SprintSource ex_palette ex_config ex_files ex_world
     (Some (Traced ''boom'' [ex_frame 1])) [0, 9223372036854775807] =
   Some (Inl MakesliceCapOutOfRange)"
proof -
  have c: "calcRows ex_config [0, 9223372036854775807] = (0, 9223372036854775807, True)"
    by (simp add: calcRows_def word_sless_alt)
  have n: "(0 + 9223372036854775807 + 3) * len [ex_frame 1] + 2 <s (0 :: int64)"
    by (simp add: len_def word_sless_alt)
  show ?thesis
    using n by (simp add: SprintSource_def sprint_def c Let_def)
qed

section \<open>sourceRows: a file with too few lines\<close>

lemma Itoa_nonneg: "0 \<le> sint i \<Longrightarrow> Itoa i = digits (nat (sint i))"
  by (simp add: Itoa_def)

text \<open>
  C5: for a frame whose file resolves to \<open>L\<close> lines (a Go slice, so fewer than \<open>2^63\<close>)
  with \<open>L < frame.Line\<close>, \<open>sourceRows\<close> appends the one row
  \<^verbatim>\<open>tracerr: too few lines, got L, want frame.Line\<close>, wrapped in \<open>yellow\<close> exactly when
  colorized, then one blank row, and nothing else. A frame with \<open>frame.Line = L\<close> does
  not take this branch: its result is that of the window loop from
  \<open>frame.Line - 1 - before\<close> to \<open>frame.Line - 1 + after\<close>, followed by the blank row.
\<close>

theorem sourceRows_too_few_lines:
  assumes resolved: "readLines fs w (Path frame) = (Inr lines, w')"
    and slice: "length lines < 9223372036854775808"
  shows
    "(int (length lines) < sint (Line frame) \<longrightarrow>
        sourceRows d fs w rows frame before after colorized =
          Some (rows @
                [warning_row d colorized
                   (''tracerr: too few lines, got '' @ digits (length lines) @
                    '', want '' @ digits (nat (sint (Line frame)))),
                 ''''], w')) \<and>
     (int (length lines) = sint (Line frame) \<longrightarrow>
        sourceRows d fs w rows frame before after colorized =
          map_option (\<lambda>rows'. (rows' @ [''''], w'))
            (sourceRows_loop d lines frame colorized
               (Line frame - 1 + after) (Line frame - 1 - before) rows))"
proof -
  have l: "sint (len lines) = int (length lines)"
    using slice by (rule sint_len)
  have "sourceRows d fs w rows frame before after colorized =
          Some (rows @
                [warning_row d colorized
                   (''tracerr: too few lines, got '' @ digits (length lines) @
                    '', want '' @ digits (nat (sint (Line frame)))),
                 ''''], w')"
    if "int (length lines) < sint (Line frame)"
  proof -
    have "len lines <s Line frame"
      using that l by (simp add: word_sless_alt)
    moreover have "Itoa (len lines) = digits (length lines)"
      using l by (simp add: Itoa_nonneg)
    moreover have "Itoa (Line frame) = digits (nat (sint (Line frame)))"
      using that by (simp add: Itoa_nonneg)
    ultimately show ?thesis
      by (simp add: sourceRows_def resolved Let_def warning_row_def)
  qed
  moreover have "sourceRows d fs w rows frame before after colorized =
          map_option (\<lambda>rows'. (rows' @ [''''], w'))
            (sourceRows_loop d lines frame colorized
               (Line frame - 1 + after) (Line frame - 1 - before) rows)"
    if "int (length lines) = sint (Line frame)"
  proof -
    have "\<not> len lines <s Line frame"
      using that l by (simp add: word_sless_alt)
    then show ?thesis
      by (simp add: sourceRows_def resolved Let_def map_option_case)
  qed
  ultimately show ?thesis
    by blast
qed

theorem sourceRows_too_few_lines_witness:
  "sourceRows ex_palette ex_files ex_world [] (ex_frame 50) 3 2 True =
     Some ([''Ytracerr: too few lines, got 6, want 50'', ''''], ex_world) \<and>
   sourceRows ex_palette ex_files ex_world [] (ex_frame 6) 0 0 False =
     Some ([''6'' @ [tab] @ ''l6'', ''''], ex_world)"
proof -
  have r: "readLines ex_files ex_world (Path (ex_frame n)) = (Inr ex_lines, ex_world)" for n
    by (simp add: ex_frame_def ex_cached)
  have n: "length ex_lines = 6"
    by (simp add: ex_lines_def)
  have s: "length ex_lines < 9223372036854775808"
    by (simp add: n)
  have loop: "sourceRows_loop ex_palette ex_lines (ex_frame 6) False 5 5 [] = Some [''6'' @ [tab] @ ''l6'']"
    by (simp add: sourceRows_loop.simps ex_frame_def ex_lines_def len_def word_sle_eq word_sless_alt
        sourceMessage_def Itoa_def digits.simps)
  show ?thesis
    using sourceRows_too_few_lines [OF r s, of 50 ex_palette "[]" 3 2 True]
      sourceRows_too_few_lines [OF r s, of 6 ex_palette "[]" 0 0 False] loop
    by (simp add: n ex_frame_def warning_row_def ex_palette_def digits.simps)
qed

section \<open>readLines: a miss, then the next call\<close>

text \<open>
  C6: on a path that is not cached, when the read fails \<open>readLines\<close> returns the error
  \<^verbatim>\<open>tracerr: file <path> not found\<close> and leaves the cache as it was, so that the next
  call reads the file system again (one more entry in \<open>reads\<close>, and the result is that
  of the new read); when the read succeeds it returns the content split at the
  newlines and stores it, and any later call for the path, whatever the file system
  then holds, returns the same lines and leaves the world as it is: no read is added.
\<close>

theorem readLines_miss:
  assumes miss: "cache w path = None"
  shows
    "(fs path = None \<longrightarrow>
        (case readLines fs w path of
           (r, w1) \<Rightarrow>
             r = Inl (Plain (''tracerr: file '' @ path @ '' not found'')) \<and>
             cache w1 = cache w \<and>
             reads w1 = reads w @ [path] \<and>
             (\<forall>fs'. fst (readLines fs' w1 path) =
                      (case fs' path of
                         None \<Rightarrow> Inl (Plain (''tracerr: file '' @ path @ '' not found''))
                       | Some b \<Rightarrow> Inr (Split b newline)) \<and>
                    reads (snd (readLines fs' w1 path)) = reads w1 @ [path]))) \<and>
     (\<forall>b. fs path = Some b \<longrightarrow>
        (case readLines fs w path of
           (r, w2) \<Rightarrow>
             r = Inr (Split b newline) \<and>
             cache w2 = (cache w)(path \<mapsto> Split b newline) \<and>
             reads w2 = reads w @ [path] \<and>
             (\<forall>fs'. readLines fs' w2 path = (Inr (Split b newline), w2))))"
  using miss by (auto simp add: readLines_def Let_def split: option.split)

theorem readLines_miss_witness:
  "readLines ex_files ex_world ''c.go'' =
     (Inl (Plain ''tracerr: file c.go not found''), ex_world\<lparr>reads := [''c.go'']\<rparr>) \<and>
   fst (readLines ex_files ex_world ''a.go'') = Inr [''x'', ''y''] \<and>
   readLines (\<lambda>p. None) (snd (readLines ex_files ex_world ''a.go'')) ''a.go'' =
     (Inr [''x'', ''y''], snd (readLines ex_files ex_world ''a.go''))"
proof -
  have c: "cache ex_world ''c.go'' = None" and a: "cache ex_world ''a.go'' = None"
    by (simp_all add: ex_world_def)
  have fc: "ex_files ''c.go'' = None" and fa: "ex_files ''a.go'' = Some (''x'' @ [newline] @ ''y'')"
    by (simp_all add: ex_files_def)
  have s: "Split (''x'' @ [newline] @ ''y'') newline = [''x'', ''y'']"
    by (simp add: newline_def)
  have "readLines ex_files ex_world ''c.go'' =
     (Inl (Plain ''tracerr: file c.go not found''), ex_world\<lparr>reads := [''c.go'']\<rparr>)"
    using readLines_miss [OF c, of ex_files] fc
    by (cases "readLines ex_files ex_world ''c.go''") (simp add: ex_world_def)
  moreover have "fst (readLines ex_files ex_world ''a.go'') = Inr [''x'', ''y''] \<and>
   readLines (\<lambda>p. None) (snd (readLines ex_files ex_world ''a.go'')) ''a.go'' =
     (Inr [''x'', ''y''], snd (readLines ex_files ex_world ''a.go''))"
    using readLines_miss [OF a, of ex_files] fa s
    by (cases "readLines ex_files ex_world ''a.go''") simp
  ultimately show ?thesis
    by simp
qed

section \<open>sprint: the frames rendered\<close>

text \<open>
  The loop renders the frames it selects, in order, and the selection does not depend
  on the rendering.
\<close>

lemma frames_loop_select:
  "frames_loop d cfg fs n before after withSource colorized frames i a st =
   render_frames d fs before after withSource colorized (select_from cfg n frames i a) st"
  by (induction frames arbitrary: i a st) (simp_all add: Let_def split: option.split)

lemma sint_of_nat:
  "k < 9223372036854775808 \<Longrightarrow> sint (word_of_nat k :: int64) = int k"
  using sint_of_int_eq [of "int k"] by simp

lemma positions_from_end: "positions_from cfg T T a = []"
  by (simp add: positions_from_def)

lemma shorter_Cons:
  "(if length (x # xs) \<le> length (x # ys) then x # xs else x # ys) =
   x # (if length xs \<le> length ys then xs else ys)"
  by simp

lemma shorter_single_left:
  "(if length [x] \<le> length (x # ys) then [x] else x # ys) = [x]"
  by simp

lemma shorter_single_right:
  "(if length (x # xs) \<le> length [x] then x # xs else [x]) = [x]"
  by (cases xs) simp_all

lemma positions_from_step:
  assumes k: "k < T"
    and a: "0 < sint (DefaultMaxFrames cfg) \<Longrightarrow> int a < sint (DefaultMaxFrames cfg)"
  shows "positions_from cfg T k a =
     (if int (Suc k) \<le> sint (DefaultIgnoreFirstFrames cfg) then positions_from cfg T (Suc k) a
      else if 0 < sint (DefaultMaxFrames cfg) \<and> sint (DefaultMaxFrames cfg) \<le> int (Suc a)
      then [Suc k]
      else if 0 < sint (DefaultIgnoreLastFrames cfg) \<and> tail_reached cfg T (Suc k)
      then [Suc k]
      else Suc k # positions_from cfg T (Suc k) (Suc a))"
proof -
  define el where
    "el = filter (\<lambda>p. \<not> int p \<le> sint (DefaultIgnoreFirstFrames cfg)) [Suc (Suc k)..<Suc T]"
  define by_max where
    "by_max b xs = (if 0 < sint (DefaultMaxFrames cfg)
                    then take (nat (sint (DefaultMaxFrames cfg)) - b) xs else xs)" for b and xs :: "nat list"
  define by_last where
    "by_last xs = (if 0 < sint (DefaultIgnoreLastFrames cfg)
                   then takeWhile (\<lambda>p. \<not> tail_reached cfg T p) xs @
                        take 1 (dropWhile (\<lambda>p. \<not> tail_reached cfg T p) xs)
                   else xs)" for xs :: "nat list"
  have u: "[Suc k..<Suc T] = Suc k # [Suc (Suc k)..<Suc T]"
    using k by (simp add: upt_conv_Cons)
  have next_pos: "positions_from cfg T (Suc k) b =
      (if length (by_max b el) \<le> length (by_last el) then by_max b el else by_last el)" for b
    by (simp add: positions_from_def el_def by_max_def by_last_def Let_def)
  show ?thesis
  proof (cases "int (Suc k) \<le> sint (DefaultIgnoreFirstFrames cfg)")
    case True
    then have "positions_from cfg T k a = positions_from cfg T (Suc k) a"
      unfolding positions_from_def u by simp
    with True show ?thesis
      by simp
  next
    case False
    then have this_pos: "positions_from cfg T k a =
        (if length (by_max a (Suc k # el)) \<le> length (by_last (Suc k # el))
         then by_max a (Suc k # el) else by_last (Suc k # el))"
      unfolding positions_from_def u by (simp add: el_def by_max_def by_last_def Let_def)
    have last_hit: "by_last (Suc k # el) = [Suc k]"
      if "0 < sint (DefaultIgnoreLastFrames cfg) \<and> tail_reached cfg T (Suc k)"
      using that by (simp add: by_last_def)
    have last_miss: "by_last (Suc k # el) = Suc k # by_last el"
      if "\<not> (0 < sint (DefaultIgnoreLastFrames cfg) \<and> tail_reached cfg T (Suc k))"
      using that by (auto simp add: by_last_def)
    show ?thesis
    proof (cases "0 < sint (DefaultMaxFrames cfg) \<and> sint (DefaultMaxFrames cfg) \<le> int (Suc a)")
      case True
      then have "nat (sint (DefaultMaxFrames cfg)) - a = Suc 0"
        using a by simp
      then have m: "by_max a (Suc k # el) = [Suc k]"
        using True by (simp add: by_max_def)
      have "positions_from cfg T k a = [Suc k]"
      proof (cases "0 < sint (DefaultIgnoreLastFrames cfg) \<and> tail_reached cfg T (Suc k)")
        case True
        show ?thesis
          unfolding this_pos m last_hit [OF True] by simp
      next
        case False
        show ?thesis
          unfolding this_pos m last_miss [OF False] by (rule shorter_single_left)
      qed
      with True \<open>\<not> int (Suc k) \<le> sint (DefaultIgnoreFirstFrames cfg)\<close> show ?thesis
        by (simp only: if_False if_True simp_thms)
    next
      case False
      have m: "by_max a (Suc k # el) = Suc k # by_max (Suc a) el"
      proof (cases "0 < sint (DefaultMaxFrames cfg)")
        case True
        with False have "int (Suc a) < sint (DefaultMaxFrames cfg)"
          by simp
        then obtain j where j: "nat (sint (DefaultMaxFrames cfg)) - a = Suc j"
          and j': "nat (sint (DefaultMaxFrames cfg)) - Suc a = j"
          by (cases "nat (sint (DefaultMaxFrames cfg)) - a") auto
        show ?thesis
          using True by (simp add: by_max_def j j')
      next
        case False
        then show ?thesis
          by (simp add: by_max_def)
      qed
      note not_max = False
      show ?thesis
      proof (cases "0 < sint (DefaultIgnoreLastFrames cfg) \<and> tail_reached cfg T (Suc k)")
        case True
        have "positions_from cfg T k a = [Suc k]"
          unfolding this_pos m last_hit [OF True] by (rule shorter_single_right)
        with True not_max \<open>\<not> int (Suc k) \<le> sint (DefaultIgnoreFirstFrames cfg)\<close> show ?thesis
          by (simp only: if_False if_True simp_thms)
      next
        case False
        have "positions_from cfg T k a = Suc k # positions_from cfg T (Suc k) (Suc a)"
          unfolding this_pos m last_miss [OF False] next_pos by (rule shorter_Cons)
        with False not_max \<open>\<not> int (Suc k) \<le> sint (DefaultIgnoreFirstFrames cfg)\<close> show ?thesis
          by (simp only: if_False if_True simp_thms)
      qed
    qed
  qed
qed

lemma select_from_positions:
  assumes T: "length frames < 9223372036854775808"
  shows "k \<le> length frames \<Longrightarrow> a \<le> k \<Longrightarrow>
     (0 < sint (DefaultMaxFrames cfg) \<Longrightarrow> int a < sint (DefaultMaxFrames cfg)) \<Longrightarrow>
     select_from cfg (len frames) (drop k frames) (word_of_nat k) (word_of_nat a) =
     map (\<lambda>p. frames ! (p - 1)) (positions_from cfg (length frames) k a)"
proof (induction "length frames - k" arbitrary: k a)
  case 0
  then have "k = length frames"
    by simp
  then show ?case
    by (simp add: positions_from_end)
next
  case (Suc n)
  then have k: "k < length frames"
    by simp
  have d: "drop k frames = frames ! k # drop (Suc k) frames"
    using k by (simp add: Cons_nth_drop_Suc)
  have i: "sint (word_of_nat (Suc k) :: int64) = int (Suc k)"
    using k T by (intro sint_of_nat) simp
  have ap: "sint (word_of_nat (Suc a) :: int64) = int (Suc a)"
    using k T Suc.prems(2) by (intro sint_of_nat) simp
  have w1: "(word_of_nat k + 1 :: int64) = word_of_nat (Suc k)"
    and w2: "(word_of_nat a + 1 :: int64) = word_of_nat (Suc a)"
    by simp_all
  have n: "n = length frames - Suc k"
    using Suc.hyps(2) by simp
  have t: "(sint (len frames) \<le> sint (word_of_nat (Suc k) + DefaultIgnoreLastFrames cfg)) =
           tail_reached cfg (length frames) (Suc k)"
    by (simp add: tail_reached_def len_def word_sle_eq)
  have z: "sint (0 :: int64) = 0"
    by simp
  have lhs: "select_from cfg (len frames) (drop k frames) (word_of_nat k) (word_of_nat a) =
     (if int (Suc k) \<le> sint (DefaultIgnoreFirstFrames cfg)
      then select_from cfg (len frames) (drop (Suc k) frames) (word_of_nat (Suc k)) (word_of_nat a)
      else if 0 < sint (DefaultMaxFrames cfg) \<and> sint (DefaultMaxFrames cfg) \<le> int (Suc a)
      then [frames ! k]
      else if 0 < sint (DefaultIgnoreLastFrames cfg) \<and> tail_reached cfg (length frames) (Suc k)
      then [frames ! k]
      else frames ! k #
           select_from cfg (len frames) (drop (Suc k) frames) (word_of_nat (Suc k))
             (word_of_nat (Suc a)))"
    unfolding d select_from.simps Let_def w1 w2 word_sle_eq word_sless_alt i ap z t ..
  note rhs = positions_from_step [OF k Suc.prems(3)]
  show ?case
  proof (cases "int (Suc k) \<le> sint (DefaultIgnoreFirstFrames cfg)")
    case True
    have "select_from cfg (len frames) (drop (Suc k) frames) (word_of_nat (Suc k)) (word_of_nat a) =
      map (\<lambda>p. frames ! (p - 1)) (positions_from cfg (length frames) (Suc k) a)"
      using k Suc.prems(2,3) by (intro Suc.hyps(1) [OF n]) simp_all
    then show ?thesis
      using True by (simp only: lhs rhs if_True)
  next
    case False
    note skip = False
    show ?thesis
    proof (cases "0 < sint (DefaultMaxFrames cfg) \<and> sint (DefaultMaxFrames cfg) \<le> int (Suc a)")
      case True
      show ?thesis
        using skip True by (simp only: lhs rhs if_True if_False simp_thms list.map diff_Suc_1)
    next
      case False
      note not_max = False
      show ?thesis
      proof (cases "0 < sint (DefaultIgnoreLastFrames cfg) \<and> tail_reached cfg (length frames) (Suc k)")
        case True
        show ?thesis
          using skip not_max True by (simp only: lhs rhs if_True if_False simp_thms list.map diff_Suc_1)
      next
        case False
        have "int (Suc a) < sint (DefaultMaxFrames cfg)" if "0 < sint (DefaultMaxFrames cfg)"
          using that not_max by simp
        then have "select_from cfg (len frames) (drop (Suc k) frames) (word_of_nat (Suc k))
            (word_of_nat (Suc a)) =
          map (\<lambda>p. frames ! (p - 1)) (positions_from cfg (length frames) (Suc k) (Suc a))"
          using k Suc.prems(2) by (intro Suc.hyps(1) [OF n]) simp_all
        then show ?thesis
          using skip not_max False by (simp only: lhs rhs if_True if_False simp_thms list.map diff_Suc_1)
      qed
    qed
  qed
qed

lemma selected_positions_from: "selected_positions cfg T = positions_from cfg T 0 0"
  by (simp add: selected_positions_def positions_from_def)

lemma select_from_selected:
  assumes "length frames < 9223372036854775808"
  shows "select_from cfg (len frames) frames 0 0 = selected_frames cfg frames"
  using select_from_positions [OF assms, of 0 0 cfg]
  by (simp add: selected_frames_def selected_positions_from)

text \<open>
  When \<open>i + DefaultIgnoreLastFrames\<close> does not wrap around, the test of the last stop is
  the mathematical \<open>i + DefaultIgnoreLastFrames \<ge> T\<close>.
\<close>

lemma tail_reached_exact:
  assumes "T < 9223372036854775808" "p \<le> T"
    and "- 9223372036854775808 \<le> int p + sint (DefaultIgnoreLastFrames cfg)"
    and "int p + sint (DefaultIgnoreLastFrames cfg) < 9223372036854775808"
  shows "tail_reached cfg T p \<longleftrightarrow> int T \<le> int p + sint (DefaultIgnoreLastFrames cfg)"
proof -
  have t: "sint (word_of_nat T :: int64) = int T"
    using assms(1) by (rule sint_of_nat)
  have p: "sint (word_of_nat p :: int64) = int p"
    using assms(1,2) by (intro sint_of_nat) simp
  have "sint (word_of_nat p + DefaultIgnoreLastFrames cfg) = int p + sint (DefaultIgnoreLastFrames cfg)"
    using assms(3,4) p by (simp add: sint_add_nowrap)
  then show ?thesis
    by (simp add: tail_reached_def word_sle_eq t)
qed

text \<open>
  The loop over a trace of \<open>T\<close> frames (a Go slice, so \<open>T < 2^63\<close>) renders the frames of
  \<open>selected_frames\<close>, each by \<open>render_frame\<close>, in the order of the trace, and returns
  exactly when that rendering does. In \<open>selected_frames\<close> the test of the last stop is
  the one the code evaluates, with the sum an \<^verbatim>\<open>int\<close>.
\<close>

lemma frames_loop_selected:
  assumes "length frames < 9223372036854775808"
  shows "frames_loop d cfg fs (len frames) before after withSource colorized frames 0 0 st =
         render_frames d fs before after withSource colorized (selected_frames cfg frames) st"
  by (simp add: frames_loop_select select_from_selected [OF assms])

lemma ex_trace_length: "length ex_trace = 3"
  by (simp add: ex_trace_def)

lemma ex_skip_selected: "selected_frames ex_skip_config ex_trace = [ex_trace ! 1]"
proof -
  have "length ex_trace = Suc (Suc (Suc 0))"
    by (simp add: ex_trace_def)
  then have "selected_positions ex_skip_config (length ex_trace) = [2]"
    by (simp add: selected_positions_def ex_skip_config_def tail_reached_def Let_def word_sle_eq)
  then show ?thesis
    by (simp add: selected_frames_def)
qed

lemma frames_loop_selected_example:
  "frames_loop ex_palette ex_skip_config ex_files (len ex_trace) 0 0 False True
     ex_trace 0 0 ([''boom''], ex_world) =
   Some ([''boom'', ''Bf2''], ex_world)"
proof -
  have l: "length ex_trace < 9223372036854775808"
    by (simp add: ex_trace_length)
  have r: "render_frames ex_palette ex_files 0 0 False True [ex_trace ! 1] ([''boom''], ex_world) =
      Some ([''boom'', ''Bf2''], ex_world)"
    by (simp add: render_frame_def ex_trace_def ex_palette_def)
  show ?thesis
    using frames_loop_selected [OF l, of ex_palette ex_skip_config ex_files 0 0 False True
        "([''boom''], ex_world)"]
    by (simp only: ex_skip_selected r)
qed

text \<open>
  C2: when \<open>DefaultIgnoreLastFrames > 0\<close> the loop is to stop after rendering the first
  frame whose position \<open>i\<close> satisfies \<open>i + DefaultIgnoreLastFrames \<ge> T\<close>. The code does not
  do so with \<open>DefaultIgnoreLastFrames\<close> the largest \<^verbatim>\<open>int\<close> on a trace of three frames:
  the position 1 satisfies the test, so only the first frame is due, but the sum
  \<^verbatim>\<open>i + DefaultIgnoreLastFrames\<close> wraps around to a negative \<^verbatim>\<open>int\<close> at every
  position, the loop never breaks, and the three frames are rendered.
\<close>

theorem frames_loop_ignore_last_overflow:
  "0 < sint (DefaultIgnoreLastFrames ex_last_config) \<and>
   int (length ex_trace) \<le> 1 + sint (DefaultIgnoreLastFrames ex_last_config) \<and>
   frames_loop ex_palette ex_last_config ex_files (len ex_trace) 0 0 False False
     ex_trace 0 0 ([''boom''], ex_world) =
   Some ([''boom'', ''f1'', ''f2'', ''f3''], ex_world)"
  by (simp add: ex_last_config_def ex_trace_def render_frame_def len_def
      word_sle_eq word_sless_alt)

text \<open>
  With \<open>DefaultIgnoreLastFrames = 5\<close> on the same trace nothing overflows, and the loop
  stops after the first frame.
\<close>

lemma frames_loop_ignore_last_example:
  "frames_loop ex_palette ex_tail_config ex_files (len ex_trace) 0 0 False False
     ex_trace 0 0 ([''boom''], ex_world) =
   Some ([''boom'', ''f1''], ex_world)"
  by (simp add: ex_tail_config_def ex_trace_def render_frame_def len_def
      word_sle_eq word_sless_alt)

section \<open>Sprint: the message and the frame headers\<close>

lemma render_frames_headers:
  "render_frames d fs before after False False frames (rows, w) =
   Some (rows @ map FrameString frames, w)"
  by (induction frames arbitrary: rows) (simp_all add: render_frame_def)

text \<open>
  C4: for a traced error (its frames a Go slice that \<^verbatim>\<open>len(frames) + 1\<close> can count),
  \<open>Sprint\<close> returns the message followed by the display strings of the selected
  frames, joined by single newlines: no blank row after the message, no source row,
  whatever the files hold and whatever the default window is. The world is returned
  as it was: no file is read.
\<close>

theorem Sprint_headers_only:
  assumes "length frames < 9223372036854775807"
  shows "Sprint d cfg fs w (Some (Traced m frames)) =
         Some (Inr (Join (m # map FrameString (selected_frames cfg frames)) [newline], w))"
proof -
  have l: "length frames < 9223372036854775808"
    using assms by simp
  have "sint (len frames) = int (length frames)"
    using l by (rule sint_len)
  then have "sint (len frames + 1) = int (length frames) + 1"
    using assms sint_succ [of "len frames"] by simp
  then have c: "\<not> len frames + 1 <s 0"
    by (simp add: word_sless_alt)
  have "frames_loop d cfg fs (len frames) 0 0 False False frames 0 0 ([m], w) =
        Some ([m] @ map FrameString (selected_frames cfg frames), w)"
    by (simp add: frames_loop_select select_from_selected [OF l] render_frames_headers)
  then show ?thesis
    using c by (simp add: Sprint_def sprint_def calcRows_zero)
qed

lemma ex_all_selected: "selected_frames ex_config ex_trace = ex_trace"
proof -
  have "length ex_trace = Suc (Suc (Suc 0))"
    by (simp add: ex_trace_def)
  then have "selected_positions ex_config (length ex_trace) = [1, 2, 3]"
    by (simp add: selected_positions_def ex_config_def Let_def)
  then show ?thesis
    by (simp add: selected_frames_def) (simp add: ex_trace_def)
qed

theorem Sprint_headers_only_witness:
  "Sprint ex_palette ex_config ex_files ex_world (Some (Traced ''boom'' ex_trace)) =
   Some (Inr (''boom'' @ [newline] @ ''f1'' @ [newline] @ ''f2'' @ [newline] @ ''f3'', ex_world))"
proof -
  have l: "length ex_trace < 9223372036854775807"
    by (simp add: ex_trace_length)
  show ?thesis
    using Sprint_headers_only [OF l, of ex_palette ex_config ex_files ex_world "''boom''"]
    by (simp add: ex_all_selected) (simp add: ex_trace_def)
qed

end
